theory Spec2Isabelle
  imports Main
begin

section \<open>Data model\<close>

text \<open>
  The plugin of \<^verbatim>\<open>src/__init__.py\<close>, embedded function by function. Python strings
  are \<^typ>\<open>string\<close>; a character outside ASCII is its UTF-8 bytes. Python integers are
  \<^typ>\<open>int\<close>. What the code does to the outside world (HTTP requests, log lines, host
  calls, thread operations) is appended to lists carried in the plugin state.
\<close>

text \<open>
  A bookmark as the server reports it: the keys that the code reads from the parsed JSON
  object. A record with a key missing (a KeyError in Python) is outside this type.
\<close>

record bookmark =
  bm_id :: string
  bm_url :: string
  bm_title :: string
  bm_labels :: "string list"
  bm_is_marked :: bool
  bm_href :: string

text \<open>
  The callable bound to an action: the function that the action's lambda calls, with
  the argument the lambda captured. \<open>Delete_bookmark\<close> stands for a call of
  \<^verbatim>\<open>_delete_bookmark\<close>, \<open>Fetch_index_items\<close> for the refresh action of
  \<^verbatim>\<open>handleTriggerQuery\<close>.
\<close>

datatype callback =
  Open_url string
| Set_clipboard_text string
| Archive_bookmark string
| Delete_bookmark string
| Fetch_index_items

record action =
  act_id :: string
  act_text :: string
  act_callable :: callback

record standard_item =
  item_id :: string
  item_text :: string
  item_subtext :: string
  item_icon_urls :: "string list"
  item_actions :: "action list"

record index_item =
  ii_item :: standard_item
  ii_string :: string

subsection \<open>String helpers of the Python library\<close>

text \<open>\<^verbatim>\<open>sep.join(xs)\<close>\<close>

fun join :: "string \<Rightarrow> string list \<Rightarrow> string" where
  "join sep [] = []"
| "join sep [x] = x"
| "join sep (x # y # ys) = x @ sep @ join sep (y # ys)"

text \<open>
  \<^verbatim>\<open>s.replace(old, new, 1)\<close> for a non-empty \<open>old\<close>: the leftmost occurrence is
  replaced, a string without one is returned as it is.
\<close>

fun replace_first :: "string \<Rightarrow> string \<Rightarrow> string \<Rightarrow> string" where
  "replace_first old new [] = []"
| "replace_first old new (c # cs) =
     (if take (length old) (c # cs) = old then new @ drop (length old) (c # cs)
      else c # replace_first old new cs)"

text \<open>\<^verbatim>\<open>str(n)\<close> for an integer: decimal digits, with a minus sign when negative.\<close>

fun str_nat :: "nat \<Rightarrow> string" where
  "str_nat n =
     (if n < 10 then [''0123456789'' ! n]
      else str_nat (n div 10) @ [''0123456789'' ! (n mod 10)])"

declare str_nat.simps [simp del]

definition str_int :: "int \<Rightarrow> string" where
  "str_int i = (if i < 0 then ''-'' @ str_nat (nat (- i)) else str_nat (nat i))"

text \<open>The marker put before a favourite's title: U+2B50 and a space, in UTF-8.\<close>

definition star :: string where
  "star = [CHR 0xE2, CHR 0xAD, CHR 0x90, CHR '' '']"

section \<open>Record transformer\<close>

text \<open>
  \<^verbatim>\<open>_create_filters\<close>:
  \<^verbatim>\<open>",".join([item["url"], item["title"], ",".join(label for label in item["labels"])])\<close>
\<close>

definition create_filters :: "bookmark \<Rightarrow> string" where
  "create_filters item = join '','' [bm_url item, bm_title item, join '','' (bm_labels item)]"

text \<open>
  \<^verbatim>\<open>_gen_item\<close>. The plugin's id and icon list are attributes of the plugin object
  and are passed in. \<^verbatim>\<open>bookmark["title"] or bookmark["url"]\<close> is the title unless it
  is the empty string. Both the archive and the delete action call
  \<^verbatim>\<open>self._archive_bookmark\<close>, as the source is written.
\<close>

definition gen_item :: "string \<Rightarrow> string list \<Rightarrow> bookmark \<Rightarrow> standard_item" where
  "gen_item self_id icon_urls bookmark =
     (let title = (if bm_title bookmark \<noteq> [] then bm_title bookmark else bm_url bookmark);
          title = (if bm_is_marked bookmark then star @ title else title)
      in \<lparr> item_id = self_id,
           item_text = title,
           item_subtext = join '','' (bm_labels bookmark) @ '': '' @ bm_url bookmark,
           item_icon_urls = icon_urls,
           item_actions =
             [ \<lparr> act_id = ''open'', act_text = ''Open in Readeck'',
                 act_callable = Open_url (replace_first ''/api'' [] (bm_href bookmark)) \<rparr>,
               \<lparr> act_id = ''open'', act_text = ''Open bookmark URL'',
                 act_callable = Open_url (bm_url bookmark) \<rparr>,
               \<lparr> act_id = ''copy'', act_text = ''Copy URL to clipboard'',
                 act_callable = Set_clipboard_text (bm_url bookmark) \<rparr>,
               \<lparr> act_id = ''archive'', act_text = ''Archive bookmark'',
                 act_callable = Archive_bookmark (bm_id bookmark) \<rparr>,
               \<lparr> act_id = ''delete'', act_text = ''Delete bookmark'',
                 act_callable = Archive_bookmark (bm_id bookmark) \<rparr> ] \<rparr>)"



section \<open>The remote server and the plugin state\<close>

datatype http_method = GET | PATCH | DELETE

text \<open>
  One call of \<^verbatim>\<open>requests.get\<close>, \<^verbatim>\<open>requests.patch\<close> or \<^verbatim>\<open>requests.delete\<close>:
  the arguments the code passes. \<open>req_timeout\<close> is the \<^verbatim>\<open>timeout\<close> argument in
  seconds, \<open>None\<close> when the call passes none (the library then waits without limit).
  \<open>req_json\<close> is the \<^verbatim>\<open>json\<close> argument, a dictionary of booleans in this code.
\<close>

record request =
  req_method :: http_method
  req_url :: string
  req_headers :: "(string \<times> string) list"
  req_json :: "(string \<times> bool) list option"
  req_timeout :: "int option"

text \<open>
  The response object, as far as the code reads it: \<^verbatim>\<open>response.ok\<close> (the library's
  own verdict on the status), \<^verbatim>\<open>response.status_code\<close>, \<^verbatim>\<open>response.headers\<close>
  (a case-insensitive dictionary, here its items) and \<^verbatim>\<open>response.json()\<close>, which is
  \<open>None\<close> when the body does not parse and the call raises.
\<close>

record response =
  ok :: bool
  status_code :: int
  headers :: "(string \<times> string) list"
  json :: "bookmark list option"

text \<open>
  The exceptions that can leave the code: a request that the library could not complete
  (connection failure or timeout), a body that is not JSON, and a \<^verbatim>\<open>Total-Count\<close>
  that \<^verbatim>\<open>int\<close> rejects. The source has no \<^verbatim>\<open>try\<close> statement, so each of them
  propagates to the caller.
\<close>

datatype error = TransportError | JSONDecodeError | ValueError

datatype outcome = Raises | Returns response

text \<open>
  The world outside the plugin: \<open>http\<close> answers a request, given the requests issued
  before it (so the server may change between requests); \<open>int_of_str\<close> is Python's
  \<^verbatim>\<open>int\<close> on a string, \<open>None\<close> where it raises ValueError.
\<close>

record world =
  http :: "request list \<Rightarrow> request \<Rightarrow> outcome"
  int_of_str :: "string \<Rightarrow> int option"

text \<open>
  Log lines. The info line of \<^verbatim>\<open>fetchIndexItems\<close> is kept as the number of
  bookmarks it reports; the elapsed time it also prints is not modelled.
\<close>

datatype log_entry = Debug string | Info_indexed nat | Warning string

datatype host_call = OpenUrl string | SetClipboardText string

datatype config_value = Config_str string | Config_int int

text \<open>
  The thread object of \<^verbatim>\<open>LinkFetcherThread\<close> as the plugin sees it: its stop event,
  whether it is alive, and the wait time in seconds it was created with.
\<close>

record thread_obj =
  stop_event :: bool
  alive :: bool
  wait_seconds :: int

datatype thread_op = Thread_start nat | Thread_stop nat | Thread_join nat

text \<open>
  The plugin object. \<open>index_items\<close> is \<^verbatim>\<open>self._index_items\<close>, the buffer a refresh
  fills; \<open>index\<close> is what \<^verbatim>\<open>setIndexItems\<close> last installed in the host's index.
  \<open>thread\<close> is \<^verbatim>\<open>self._thread\<close> and \<open>old_threads\<close> holds the thread objects it
  referred to before, oldest first; a thread is named by its position in that history. \<open>trace\<close>, \<open>log\<close>, \<open>host_calls\<close> and \<open>thread_ops\<close>
  record, in order, the HTTP requests issued, the log lines written, the host functions
  called and the thread operations performed; \<open>config\<close> is the store behind
  \<^verbatim>\<open>writeConfig\<close>.
\<close>

record plugin =
  instance_url :: string
  api_key :: string
  cache_length :: int
  self_id :: string
  icon_urls :: "string list"
  index_items :: "index_item list"
  index :: "index_item list"
  thread :: thread_obj
  old_threads :: "thread_obj list"
  trace :: "request list"
  log :: "log_entry list"
  host_calls :: "host_call list"
  thread_ops :: "thread_op list"
  config :: "string \<Rightarrow> config_value option"

definition limit :: int where
  "limit = 100"

definition user_agent :: string where
  "user_agent = ''org.albert.linkding''"

section \<open>Pager\<close>

text \<open>
  \<^verbatim>\<open>response_headers.get("Total-Count", 1)\<close> on the case-insensitive dictionary: a key
  matches when the lower-cased names agree. The name looked up is ASCII, and no
  non-ASCII character lower-cases to one of its letters.
\<close>

definition lower_char :: "char \<Rightarrow> char" where
  "lower_char c =
     (if 65 \<le> (of_char c :: nat) \<and> (of_char c :: nat) \<le> 90
      then char_of ((of_char c :: nat) + 32) else c)"

fun headers_get :: "(string \<times> string) list \<Rightarrow> string \<Rightarrow> string option" where
  "headers_get [] k = None"
| "headers_get ((k', v) # hs) k =
     (if map lower_char k' = map lower_char k then Some v else headers_get hs k)"

text \<open>\<^verbatim>\<open>int(response_headers.get("Total-Count", 1))\<close>; \<open>None\<close> is the ValueError.\<close>

definition total_count :: "world \<Rightarrow> (string \<times> string) list \<Rightarrow> int option" where
  "total_count w hs =
     (case headers_get hs ''Total-Count'' of
        None \<Rightarrow> Some 1
      | Some v \<Rightarrow> int_of_str w v)"

text \<open>The local variables of \<^verbatim>\<open>_get_links\<close> that the loop changes.\<close>

record locals =
  offset :: int
  total :: int
  response_headers :: "(string \<times> string) list option"

text \<open>
  The \<^verbatim>\<open>headers\<close> dictionary, built once before the loop, and the url of a page:
  \<^verbatim>\<open>parse.urlencode\<close> of \<^verbatim>\<open>{"limit": 100, "offset": offset}\<close>.
\<close>

definition list_headers :: "plugin \<Rightarrow> (string \<times> string) list" where
  "list_headers self =
     [(''User-Agent'', user_agent),
      (''Authorization'', ''Bearer '' @ api_key self),
      (''accept'', ''application/json'')]"

definition list_url :: "plugin \<Rightarrow> int \<Rightarrow> string" where
  "list_url self off =
     instance_url self @ ''/api/bookmarks?'' @ ''limit='' @ str_int limit
       @ ''&offset='' @ str_int off"

definition list_request :: "(string \<times> string) list \<Rightarrow> plugin \<Rightarrow> int \<Rightarrow> request" where
  "list_request hdrs self off =
     \<lparr> req_method = GET, req_url = list_url self off, req_headers = hdrs,
       req_json = None, req_timeout = Some 5 \<rparr>"

text \<open>
  \<^verbatim>\<open>if not response_headers: ...\<close>: the headers are taken when none were taken yet or
  the ones taken are an empty dictionary.
\<close>

definition capture :: "world \<Rightarrow> response \<Rightarrow> locals \<Rightarrow> locals option" where
  "capture w response ls =
     (if response_headers ls = None \<or> response_headers ls = Some [] then
        (case total_count w (headers response) of
           None \<Rightarrow> None
         | Some t \<Rightarrow> Some (ls\<lparr> response_headers := Some (headers response), total := t \<rparr>))
      else Some ls)"

text \<open>
  One pass through the body of the \<^verbatim>\<open>while\<close> loop: it yields a page and goes on,
  leaves the loop by \<^verbatim>\<open>break\<close>, or raises.
\<close>

datatype step =
  Yield plugin locals "bookmark list"
| Break plugin
| Raise error plugin

definition get_links_body :: "world \<Rightarrow> (string \<times> string) list \<Rightarrow> plugin \<Rightarrow> locals \<Rightarrow> step" where
  "get_links_body w hdrs self ls =
     (let req = list_request hdrs self (offset ls);
          self' = self\<lparr> trace := trace self @ [req] \<rparr>
      in case http w (trace self) req of
           Raises \<Rightarrow> Raise TransportError self'
         | Returns response \<Rightarrow>
             if ok response then
               (case capture w response ls of
                  None \<Rightarrow> Raise ValueError self'
                | Some ls' \<Rightarrow>
                    (case json response of
                       None \<Rightarrow> Raise JSONDecodeError self'
                     | Some result \<Rightarrow> Yield self' (ls'\<lparr> offset := offset ls' + limit \<rparr>) result))
             else
               Break (self'\<lparr> log := log self' @
                 [Warning (''Got response '' @ str_int (status_code response)
                    @ '' querying '' @ req_url req)] \<rparr>))"

text \<open>
  The \<^verbatim>\<open>while offset <= total\<close> loop. The result is the plugin afterwards, the pages
  yielded in order, and the exception that ended the generator, if one did.
\<close>

function get_links_loop ::
  "world \<Rightarrow> (string \<times> string) list \<Rightarrow> plugin \<Rightarrow> locals
     \<Rightarrow> plugin \<times> bookmark list list \<times> error option" where
  "get_links_loop w hdrs self ls =
     (if offset ls \<le> total ls then
        (case get_links_body w hdrs self ls of
           Yield self' ls' result \<Rightarrow>
             (case get_links_loop w hdrs self' ls' of
                (self'', pages, err) \<Rightarrow> (self'', result # pages, err))
         | Break self' \<Rightarrow> (self', [], None)
         | Raise e self' \<Rightarrow> (self', [], Some e))
      else (self, [], None))"
  by pat_completeness auto

termination
proof (relation "measures
    [\<lambda>(w, hdrs, self, ls).
        if response_headers ls = None \<or> response_headers ls = Some [] then 1 else 0,
     \<lambda>(w, hdrs, self, ls). nat (max (total ls) 1 - offset ls + 1)]", goal_cases)
  case 1
  show ?case by simp
next
  case (2 w hdrs self ls x1 x2 x3)
  then show ?case
    by (auto simp: get_links_body_def capture_def total_count_def limit_def Let_def
          split: outcome.splits if_splits option.splits)
qed

definition get_links :: "world \<Rightarrow> plugin \<Rightarrow> plugin \<times> bookmark list list \<times> error option" where
  "get_links w self =
     get_links_loop w (list_headers self) self
       \<lparr> offset = 0, total = 1, response_headers = None \<rparr>"

text \<open>
  The state of the loop after \<open>n\<close> passes of its body that yielded a page, when it gets
  that far: each pass is taken as the loop takes it, under the loop's test.
\<close>

fun get_links_iter ::
  "world \<Rightarrow> (string \<times> string) list \<Rightarrow> nat \<Rightarrow> plugin \<Rightarrow> locals \<Rightarrow> (plugin \<times> locals) option" where
  "get_links_iter w hdrs 0 self ls = Some (self, ls)"
| "get_links_iter w hdrs (Suc n) self ls =
     (if offset ls \<le> total ls then
        (case get_links_body w hdrs self ls of
           Yield self' ls' result \<Rightarrow> get_links_iter w hdrs n self' ls'
         | Break self' \<Rightarrow> None
         | Raise e self' \<Rightarrow> None)
      else None)"

text \<open>
  \<^verbatim>\<open>_fetch_results\<close> flattens the pages into one sequence of links. The generators
  are lazy, but nothing between two pages touches the network, so the pages can be
  collected first.
\<close>

definition fetch_results :: "world \<Rightarrow> plugin \<Rightarrow> plugin \<times> bookmark list \<times> error option" where
  "fetch_results w self =
     (case get_links w self of (self', pages, err) \<Rightarrow> (self', concat pages, err))"

section \<open>Refresh cycle\<close>

definition to_index_item :: "plugin \<Rightarrow> bookmark \<Rightarrow> index_item" where
  "to_index_item self link =
     \<lparr> ii_item = gen_item (self_id self) (icon_urls self) link,
       ii_string = create_filters link \<rparr>"

text \<open>
  \<^verbatim>\<open>fetchIndexItems\<close>. The links consumed before an exception have been appended to
  \<^verbatim>\<open>self._index_items\<close> when it propagates; the three statements after the
  \<^verbatim>\<open>for\<close> loop run only when the generator ended without one.
\<close>

definition fetchIndexItems :: "world \<Rightarrow> plugin \<Rightarrow> plugin \<times> error option" where
  "fetchIndexItems w self =
     (case fetch_results w self of
        (self1, data, err) \<Rightarrow>
          let self2 = self1\<lparr> index_items := index_items self1 @ map (to_index_item self1) data \<rparr>
          in (case err of
                Some e \<Rightarrow> (self2, Some e)
              | None \<Rightarrow>
                  (self2\<lparr> index := index_items self2,
                          log := log self2 @ [Info_indexed (length (index_items self2))],
                          index_items := [] \<rparr>, None)))"

section \<open>Action executor\<close>

definition mutate_headers :: "plugin \<Rightarrow> (string \<times> string) list" where
  "mutate_headers self =
     [(''User-Agent'', user_agent), (''Authorization'', ''Bearer '' @ api_key self)]"

definition delete_request :: "plugin \<Rightarrow> string \<Rightarrow> request" where
  "delete_request self bookmark_id =
     \<lparr> req_method = DELETE,
       req_url = instance_url self @ ''/api/bookmarks/'' @ bookmark_id,
       req_headers = mutate_headers self, req_json = None, req_timeout = None \<rparr>"

definition archive_request :: "plugin \<Rightarrow> string \<Rightarrow> request" where
  "archive_request self bookmark_id =
     \<lparr> req_method = PATCH,
       req_url = instance_url self @ ''/api/bookmarks/'' @ bookmark_id @ ''/'',
       req_headers = mutate_headers self, req_json = Some [(''is_archived'', True)],
       req_timeout = None \<rparr>"

text \<open>
  What \<^verbatim>\<open>_delete_bookmark\<close> and \<^verbatim>\<open>_archive_bookmark\<close> do with their request:
  a debug line, the request, then a refresh if the response is ok and a warning with the
  response's representation otherwise.
\<close>

definition send_mutation :: "world \<Rightarrow> plugin \<Rightarrow> string \<Rightarrow> request \<Rightarrow> plugin \<times> error option" where
  "send_mutation w self verb req =
     (let self1 = self\<lparr> log := log self @ [Debug (''About to '' @ verb @ '' '' @ req_url req)] \<rparr>;
          self2 = self1\<lparr> trace := trace self1 @ [req] \<rparr>
      in case http w (trace self1) req of
           Raises \<Rightarrow> (self2, Some TransportError)
         | Returns response \<Rightarrow>
             if ok response then fetchIndexItems w self2
             else (self2\<lparr> log := log self2 @
                     [Warning (''Got response <Response ['' @ str_int (status_code response)
                        @ '']>'')] \<rparr>, None))"

definition delete_bookmark :: "world \<Rightarrow> plugin \<Rightarrow> string \<Rightarrow> plugin \<times> error option" where
  "delete_bookmark w self bookmark_id =
     send_mutation w self ''DELETE'' (delete_request self bookmark_id)"

definition archive_bookmark :: "world \<Rightarrow> plugin \<Rightarrow> string \<Rightarrow> plugin \<times> error option" where
  "archive_bookmark w self bookmark_id =
     send_mutation w self ''PATCH'' (archive_request self bookmark_id)"

text \<open>Running the callable of an action.\<close>

fun invoke :: "world \<Rightarrow> plugin \<Rightarrow> callback \<Rightarrow> plugin \<times> error option" where
  "invoke w self (Open_url u) = (self\<lparr> host_calls := host_calls self @ [OpenUrl u] \<rparr>, None)"
| "invoke w self (Set_clipboard_text u) =
     (self\<lparr> host_calls := host_calls self @ [SetClipboardText u] \<rparr>, None)"
| "invoke w self (Archive_bookmark i) = archive_bookmark w self i"
| "invoke w self (Delete_bookmark i) = delete_bookmark w self i"
| "invoke w self Fetch_index_items = fetchIndexItems w self"

section \<open>Configuration and the scheduler thread, as the plugin drives it\<close>

text \<open>
  The thread operations the plugin calls on \<^verbatim>\<open>self._thread\<close>. \<^verbatim>\<open>join\<close> returns
  when the thread's \<^verbatim>\<open>run\<close> has ended, after which the thread is not alive; on a
  live thread whose stop event is not set the loop of \<^verbatim>\<open>run\<close> does not end, and
  the call does not return (\<open>None\<close>).
\<close>

definition new_thread :: "int \<Rightarrow> thread_obj" where
  "new_thread cache_len = \<lparr> stop_event = False, alive = False, wait_seconds = cache_len * 60 \<rparr>"

definition thread_start :: "plugin \<Rightarrow> plugin" where
  "thread_start self =
     self\<lparr> thread := (thread self)\<lparr> alive := True \<rparr>,
           thread_ops := thread_ops self @ [Thread_start (length (old_threads self))] \<rparr>"




text \<open>
  \<^verbatim>\<open>__init__\<close>, from the stored configuration, the plugin's id and its icon list.
  \<^verbatim>\<open>readConfig(key, type) or default\<close> gives the default for a missing value and
  for an empty string or a zero.
\<close>

definition read_str :: "(string \<Rightarrow> config_value option) \<Rightarrow> string \<Rightarrow> string \<Rightarrow> string" where
  "read_str cfg key dflt =
     (case cfg key of Some (Config_str v) \<Rightarrow> (if v = [] then dflt else v) | _ \<Rightarrow> dflt)"

definition read_int :: "(string \<Rightarrow> config_value option) \<Rightarrow> string \<Rightarrow> int \<Rightarrow> int" where
  "read_int cfg key dflt =
     (case cfg key of Some (Config_int v) \<Rightarrow> (if v = 0 then dflt else v) | _ \<Rightarrow> dflt)"

definition init :: "(string \<Rightarrow> config_value option) \<Rightarrow> string \<Rightarrow> string list \<Rightarrow> plugin" where
  "init cfg sid icons =
     thread_start
       \<lparr> instance_url = read_str cfg ''instance_url'' ''http://localhost:8000'',
         api_key = read_str cfg ''api_key'' [],
         cache_length = read_int cfg ''cache_length'' 15,
         self_id = sid,
         icon_urls = icons,
         index_items = [],
         index = [],
         thread = new_thread (read_int cfg ''cache_length'' 15),
         old_threads = [],
         trace = [],
         log = [],
         host_calls = [],
         thread_ops = [],
         config = cfg \<rparr>"






section \<open>The scheduler thread itself\<close>

text \<open>
  \<^verbatim>\<open>LinkFetcherThread\<close> seen from inside. The callback is a parameter of the class;
  here a call of it is an event, and whether it raises is given from outside. The thread
  is followed from one blocking point to the next: \<open>fetcher_start\<close> is \<^verbatim>\<open>run\<close> up to
  its first \<^verbatim>\<open>wait\<close>, \<open>fetcher_wake\<close> is the return of a \<^verbatim>\<open>wait\<close> (the timeout
  passed or the event was set) up to the next one or to the end of \<^verbatim>\<open>run\<close>. An
  exception of the callback ends \<^verbatim>\<open>run\<close>.
\<close>

datatype run_event = Callback | Wait int

datatype location = Not_started | Waiting | Finished

record fetcher =
  f_stop_event :: bool
  f_cache_length :: int
  f_location :: location
  f_events :: "run_event list"


text \<open>\<^verbatim>\<open>self.__callback()\<close>, and the \<^verbatim>\<open>wait\<close> that follows when it returns.\<close>

definition fetcher_cycle :: "bool \<Rightarrow> fetcher \<Rightarrow> fetcher" where
  "fetcher_cycle raises t =
     (if raises then t\<lparr> f_events := f_events t @ [Callback], f_location := Finished \<rparr>
      else t\<lparr> f_events := f_events t @ [Callback, Wait (f_cache_length t)],
              f_location := Waiting \<rparr>)"

definition fetcher_start :: "bool \<Rightarrow> fetcher \<Rightarrow> fetcher" where
  "fetcher_start raises t = (if f_location t = Not_started then fetcher_cycle raises t else t)"

definition fetcher_wake :: "bool \<Rightarrow> fetcher \<Rightarrow> fetcher" where
  "fetcher_wake raises t =
     (if f_location t = Waiting then
        (if f_stop_event t then t\<lparr> f_location := Finished \<rparr> else fetcher_cycle raises t)
      else t)"

definition fetcher_stop :: "fetcher \<Rightarrow> fetcher" where
  "fetcher_stop t = t\<lparr> f_stop_event := True \<rparr>"

text \<open>
  A schedule: what happens to the thread, in order. \<open>Wake\<close> and \<open>Start\<close> carry whether
  the callback raises, should one be run.
\<close>

datatype sched_event = Start bool | Wake bool | Stop

fun fetcher_step :: "fetcher \<Rightarrow> sched_event \<Rightarrow> fetcher" where
  "fetcher_step t (Start raises) = fetcher_start raises t"
| "fetcher_step t (Wake raises) = fetcher_wake raises t"
| "fetcher_step t Stop = fetcher_stop t"

definition fetcher_run :: "fetcher \<Rightarrow> sched_event list \<Rightarrow> fetcher" where
  "fetcher_run t sched = foldl fetcher_step t sched"


text \<open>Two plugin states that differ at most in the request trace and the log.\<close>

definition same_config :: "plugin \<Rightarrow> plugin \<Rightarrow> bool" where
  "same_config a b \<longleftrightarrow> b = a\<lparr> trace := trace b, log := log b \<rparr>"

section \<open>Concrete worlds for the examples\<close>

text \<open>
  \<^verbatim>\<open>int\<close> on a string of ASCII decimal digits. The examples below use it for
  \<open>int_of_str\<close>; the theorems hold for every \<open>int_of_str\<close>.
\<close>

definition digit_val :: "char \<Rightarrow> nat option" where
  "digit_val = map_of
     [(CHR ''0'', 0), (CHR ''1'', 1), (CHR ''2'', 2), (CHR ''3'', 3), (CHR ''4'', 4),
      (CHR ''5'', 5), (CHR ''6'', 6), (CHR ''7'', 7), (CHR ''8'', 8), (CHR ''9'', 9)]"

fun digits_acc :: "nat \<Rightarrow> string \<Rightarrow> nat option" where
  "digits_acc n [] = Some n"
| "digits_acc n (c # cs) =
     (case digit_val c of None \<Rightarrow> None | Some d \<Rightarrow> digits_acc (10 * n + d) cs)"

definition digits_to_int :: "string \<Rightarrow> int option" where
  "digits_to_int s = (if s = [] then None else map_option int (digits_acc 0 s))"

definition world_of :: "(request list \<Rightarrow> request \<Rightarrow> outcome) \<Rightarrow> world" where
  "world_of f = \<lparr> http = f, int_of_str = digits_to_int \<rparr>"

definition page_response :: "(string \<times> string) list \<Rightarrow> bookmark list \<Rightarrow> response" where
  "page_response hs bs = \<lparr> ok = True, status_code = 200, headers = hs, json = Some bs \<rparr>"

definition error_response :: "int \<Rightarrow> response" where
  "error_response n = \<lparr> ok = False, status_code = n, headers = [], json = None \<rparr>"

definition demo_bookmark :: "string \<Rightarrow> bookmark" where
  "demo_bookmark i =
     \<lparr> bm_id = i, bm_url = ''http://x/'' @ i, bm_title = ''t'', bm_labels = [],
       bm_is_marked = False, bm_href = ''http://r/api/bookmarks/'' @ i \<rparr>"

text \<open>A plugin created with nothing stored in the configuration.\<close>

definition demo_plugin :: plugin where
  "demo_plugin = init (\<lambda>k. None) ''readeck'' []"

text \<open>A server that answers every request with a page and reports 250 bookmarks.\<close>

definition world_250 :: world where
  "world_250 = world_of (\<lambda>h q. Returns (page_response [(''Total-Count'', ''250'')] []))"

text \<open>A server whose responses carry no \<^verbatim>\<open>Total-Count\<close>.\<close>

definition world_no_total :: world where
  "world_no_total =
     world_of (\<lambda>h q. Returns (page_response [(''Content-Type'', ''application/json'')]
        [demo_bookmark ''1'']))"

text \<open>The requests for the first \<open>n\<close> pages, as \<^verbatim>\<open>_get_links\<close> builds them.\<close>

definition page_request :: "plugin \<Rightarrow> nat \<Rightarrow> request" where
  "page_request self i = list_request (list_headers self) self (int i * limit)"

definition page_requests :: "plugin \<Rightarrow> nat \<Rightarrow> request list" where
  "page_requests self n = map (page_request self) [0..<n]"


text \<open>
  A server that reports 250 bookmarks on the first request it sees and 1000 on every
  later one.
\<close>

definition world_shifting :: world where
  "world_shifting =
     world_of (\<lambda>h q. Returns (page_response
        [(''Total-Count'', if h = [] then ''250'' else ''1000'')] []))"

text \<open>A server that cannot be reached.\<close>

definition world_down :: world where
  "world_down = world_of (\<lambda>h q. Raises)"

text \<open>A server that answers the first request with a page and every later one with 500.\<close>

definition world_fail_second :: world where
  "world_fail_second =
     world_of (\<lambda>h q. if h = []
        then Returns (page_response [(''Total-Count'', ''250'')] [demo_bookmark ''1''])
        else Returns (error_response 500))"

text \<open>A server that answers every request with 404.\<close>

definition world_404 :: world where
  "world_404 = world_of (\<lambda>h q. Returns (error_response 404))"

text \<open>A server that answers the first request with a page and cannot be reached after it.\<close>

definition world_drop_second :: world where
  "world_drop_second =
     world_of (\<lambda>h q. if h = []
        then Returns (page_response [(''Total-Count'', ''250'')] [demo_bookmark ''1''])
        else Raises)"

section \<open>Auxiliary lemmas\<close>

declare get_links_loop.simps [simp del]

lemma list_request_frame [simp]:
  "list_request hdrs (self\<lparr> trace := t \<rparr>) off = list_request hdrs self off"
  "list_request hdrs (self\<lparr> log := l \<rparr>) off = list_request hdrs self off"
  by (simp_all add: list_request_def list_url_def)

lemma body_cases:
  "get_links_body w hdrs self ls =
     (case http w (trace self) (list_request hdrs self (offset ls)) of
        Raises \<Rightarrow> Raise TransportError (self\<lparr> trace := trace self @ [list_request hdrs self (offset ls)] \<rparr>)
      | Returns r \<Rightarrow>
          if ok r then
            (case capture w r ls of None \<Rightarrow> Raise ValueError (self\<lparr> trace := trace self @ [list_request hdrs self (offset ls)] \<rparr>)
             | Some ls' \<Rightarrow> (case json r of None \<Rightarrow> Raise JSONDecodeError (self\<lparr> trace := trace self @ [list_request hdrs self (offset ls)] \<rparr>)
                | Some b \<Rightarrow> Yield (self\<lparr> trace := trace self @ [list_request hdrs self (offset ls)] \<rparr>) (ls'\<lparr> offset := offset ls' + limit \<rparr>) b))
          else Break (self\<lparr> trace := trace self @ [list_request hdrs self (offset ls)],
                 log := log self @ [Warning (''Got response '' @ str_int (status_code r) @ '' querying '' @ list_url self (offset ls))] \<rparr>))"
  by (simp add: get_links_body_def Let_def list_request_def split: outcome.splits option.splits)

lemma same_config_refl [simp]: "same_config a a"
  by (simp add: same_config_def)

lemma same_config_upd [simp]:
  "same_config a (b\<lparr> trace := t \<rparr>) = same_config a b"
  "same_config a (b\<lparr> log := l \<rparr>) = same_config a b"
  by (cases a, cases b, simp add: same_config_def)+

lemma same_config_trans: "same_config a b \<Longrightarrow> same_config b c \<Longrightarrow> same_config a c"
  by (cases a, cases b, cases c) (simp add: same_config_def)

lemma same_config_fields:
  assumes "same_config a b"
  shows "instance_url b = instance_url a" "api_key b = api_key a"
    "cache_length b = cache_length a" "self_id b = self_id a" "icon_urls b = icon_urls a"
    "index_items b = index_items a" "index b = index a" "thread b = thread a"
    "old_threads b = old_threads a" "host_calls b = host_calls a"
    "thread_ops b = thread_ops a" "config b = config a"
  using assms by (cases a, cases b, simp add: same_config_def)+

lemma body_frame:
  "get_links_body w hdrs self ls = Yield self' ls' b \<Longrightarrow> same_config self self'"
  "get_links_body w hdrs self ls = Break self' \<Longrightarrow> same_config self self'"
  "get_links_body w hdrs self ls = Raise e self' \<Longrightarrow> same_config self self'"
  by (auto simp: body_cases split: outcome.splits option.splits if_splits)


lemma total_count_Nil [simp]: "total_count w [] = Some 1"
  by (simp add: total_count_def)

lemma loop_done: "\<not> offset ls \<le> total ls \<Longrightarrow> get_links_loop w hdrs self ls = (self, [], None)"
  by (simp add: get_links_loop.simps)

lemma loop_yield:
  "offset ls \<le> total ls \<Longrightarrow> get_links_body w hdrs self ls = Yield s1 ls1 b \<Longrightarrow>
   get_links_loop w hdrs self ls =
     (case get_links_loop w hdrs s1 ls1 of (s, ps, e) \<Rightarrow> (s, b # ps, e))"
  by (subst get_links_loop.simps) simp

lemma loop_break:
  "offset ls \<le> total ls \<Longrightarrow> get_links_body w hdrs self ls = Break s1 \<Longrightarrow>
   get_links_loop w hdrs self ls = (s1, [], None)"
  by (subst get_links_loop.simps) simp

lemma loop_raise:
  "offset ls \<le> total ls \<Longrightarrow> get_links_body w hdrs self ls = Raise e s1 \<Longrightarrow>
   get_links_loop w hdrs self ls = (s1, [], Some e)"
  by (subst get_links_loop.simps) simp

lemma body_yield_first:
  assumes "response_headers ls = None \<or> response_headers ls = Some []"
    and "http w (trace self) (list_request hdrs self (offset ls)) = Returns r"
    and "ok r" and "json r = Some b" and "total_count w (headers r) = Some t"
  shows "get_links_body w hdrs self ls =
     Yield (self\<lparr> trace := trace self @ [list_request hdrs self (offset ls)] \<rparr>)
       (ls\<lparr> response_headers := Some (headers r), total := t, offset := offset ls + 100 \<rparr>) b"
  using assms by (auto simp: body_cases capture_def limit_def)

lemma body_yield_later:
  assumes "response_headers ls = Some hs" and "hs \<noteq> []"
    and "http w (trace self) (list_request hdrs self (offset ls)) = Returns r"
    and "ok r" and "json r = Some b"
  shows "get_links_body w hdrs self ls =
     Yield (self\<lparr> trace := trace self @ [list_request hdrs self (offset ls)] \<rparr>)
       (ls\<lparr> offset := offset ls + 100 \<rparr>) b"
  using assms by (simp add: body_cases capture_def limit_def)

lemma body_break:
  assumes "http w (trace self) (list_request hdrs self (offset ls)) = Returns r" and "\<not> ok r"
  shows "get_links_body w hdrs self ls =
     Break (self\<lparr> trace := trace self @ [list_request hdrs self (offset ls)],
       log := log self @ [Warning (''Got response '' @ str_int (status_code r) @ '' querying ''
                 @ list_url self (offset ls))] \<rparr>)"
  using assms by (simp add: body_cases)

lemma body_raise:
  assumes "http w (trace self) (list_request hdrs self (offset ls)) = Raises"
  shows "get_links_body w hdrs self ls =
     Raise TransportError (self\<lparr> trace := trace self @ [list_request hdrs self (offset ls)] \<rparr>)"
  using assms by (simp add: body_cases)

lemma str_int_vals: "str_int 0 = ''0''" "str_int 100 = ''100''" "str_int 200 = ''200''"
  by (simp_all add: str_int_def str_nat.simps)

lemma demo_trace [simp]: "trace demo_plugin = []"
  by (simp add: demo_plugin_def init_def thread_start_def)

lemma body_truthy_locals:
  "get_links_body w hdrs self ls = Yield s1 ls1 b \<Longrightarrow> response_headers ls = Some hs \<Longrightarrow> hs \<noteq> []
   \<Longrightarrow> ls1 = ls\<lparr> offset := offset ls + 100 \<rparr>"
  by (auto simp: body_cases capture_def limit_def split: outcome.splits option.splits if_splits)

lemma body_falsy_locals:
  "get_links_body w hdrs self ls = Yield s1 ls1 b \<Longrightarrow>
   response_headers ls = None \<or> response_headers ls = Some [] \<Longrightarrow>
   \<exists>r. http w (trace self) (list_request hdrs self (offset ls)) = Returns r \<and> ok r
       \<and> total_count w (headers r) = Some (total ls1)
       \<and> response_headers ls1 = Some (headers r) \<and> offset ls1 = offset ls + 100"
  by (auto simp: body_cases capture_def limit_def split: outcome.splits option.splits if_splits)

lemma iter_truthy:
  "get_links_iter w hdrs n self ls = Some (self', ls') \<Longrightarrow> response_headers ls = Some hs \<Longrightarrow>
   hs \<noteq> [] \<Longrightarrow> total ls' = total ls"
proof (induction n arbitrary: self ls)
  case 0
  then show ?case by simp
next
  case (Suc n)
  from Suc.prems(1) obtain s1 ls1 b where
    b: "get_links_body w hdrs self ls = Yield s1 ls1 b"
    and r: "get_links_iter w hdrs n s1 ls1 = Some (self', ls')"
    by (auto split: if_splits step.splits)
  from body_truthy_locals[OF b Suc.prems(2,3)] have e: "ls1 = ls\<lparr> offset := offset ls + 100 \<rparr>" .
  with Suc.IH[OF r] Suc.prems(2,3) show ?case by simp
qed

lemma iter_beyond:
  "get_links_iter w hdrs n self ls = Some (self', ls') \<Longrightarrow> total ls < offset ls \<Longrightarrow> ls' = ls"
  by (cases n) auto

lemma iter_loop:
  "get_links_iter w hdrs n self ls = Some (self', ls') \<Longrightarrow>
   \<exists>ps. length ps = n \<and> get_links_loop w hdrs self ls =
     (case get_links_loop w hdrs self' ls' of (s, qs, e) \<Rightarrow> (s, ps @ qs, e))"
proof (induction n arbitrary: self ls)
  case 0
  then show ?case by simp
next
  case (Suc n)
  from Suc.prems obtain s1 ls1 b where
    g: "offset ls \<le> total ls"
    and b: "get_links_body w hdrs self ls = Yield s1 ls1 b"
    and r: "get_links_iter w hdrs n s1 ls1 = Some (self', ls')"
    by (auto split: if_splits step.splits)
  from Suc.IH[OF r] obtain ps where ps: "length ps = n"
    "get_links_loop w hdrs s1 ls1 = (case get_links_loop w hdrs self' ls' of (s, qs, e) \<Rightarrow> (s, ps @ qs, e))"
    by blast
  have "get_links_loop w hdrs self ls =
     (case get_links_loop w hdrs self' ls' of (s, qs, e) \<Rightarrow> (s, (b # ps) @ qs, e))"
    using loop_yield[OF g b] ps(2) by (simp split: prod.splits)
  with ps(1) show ?case by (intro exI[of _ "b # ps"]) simp
qed



lemma demo_fields [simp]: "log demo_plugin = []" "index_items demo_plugin = []"
  by (simp_all add: demo_plugin_def init_def thread_start_def)

lemma body_no_raise:
  assumes "\<forall>h q. http w h q \<noteq> Raises"
    and "\<forall>h q r. http w h q = Returns r \<and> ok r \<longrightarrow> json r \<noteq> None \<and> total_count w (headers r) \<noteq> None"
  shows "get_links_body w hdrs self ls \<noteq> Raise e s"
proof (cases "http w (trace self) (list_request hdrs self (offset ls))")
  case Raises
  with assms(1) show ?thesis by simp
next
  case (Returns r)
  show ?thesis
  proof (cases "ok r")
    case False
    with Returns show ?thesis by (simp add: body_cases)
  next
    case True
    with assms(2) Returns obtain b t where "json r = Some b" "total_count w (headers r) = Some t"
      by blast
    with Returns True show ?thesis
      by (simp add: body_cases capture_def)
  qed
qed

lemma loop_no_raise:
  assumes "\<forall>h q. http w h q \<noteq> Raises"
    and "\<forall>h q r. http w h q = Returns r \<and> ok r \<longrightarrow> json r \<noteq> None \<and> total_count w (headers r) \<noteq> None"
  shows "snd (snd (get_links_loop w hdrs self ls)) = None"
  using assms
proof (induction w hdrs self ls rule: get_links_loop.induct)
  case (1 w hdrs self ls)
  show ?case
  proof (cases "offset ls \<le> total ls")
    case False
    then show ?thesis by (simp add: loop_done)
  next
    case True
    show ?thesis
    proof (cases "get_links_body w hdrs self ls")
      case (Yield s1 ls1 b)
      from "1.IH"[OF True Yield "1.prems"] loop_yield[OF True Yield] show ?thesis
        by (simp split: prod.splits)
    next
      case (Break s1)
      with True show ?thesis by (simp add: loop_break)
    next
      case (Raise e s1)
      with body_no_raise[OF "1.prems"] show ?thesis by blast
    qed
  qed
qed

lemma fetch_err: "snd (fetchIndexItems w self) = snd (snd (get_links w self))"
  by (simp add: fetchIndexItems_def fetch_results_def Let_def split: prod.splits option.splits)

lemma fetch_transport:
  assumes "http w (trace self) (list_request (list_headers self) self 0) = Raises"
  shows "fetchIndexItems w self =
     (self\<lparr> trace := trace self @ [list_request (list_headers self) self 0] \<rparr>, Some TransportError)"
proof -
  let ?ls0 = "\<lparr> offset = 0, total = 1, response_headers = None \<rparr>"
  have "get_links_body w (list_headers self) self ?ls0 =
     Raise TransportError (self\<lparr> trace := trace self @ [list_request (list_headers self) self 0] \<rparr>)"
    using body_raise[of w self "list_headers self" ?ls0] assms by simp
  then have "get_links w self =
     (self\<lparr> trace := trace self @ [list_request (list_headers self) self 0] \<rparr>, [], Some TransportError)"
    by (simp add: get_links_def loop_raise)
  then show ?thesis
    by (simp add: fetchIndexItems_def fetch_results_def)
qed

lemma body_trace:
  "get_links_body w hdrs self ls = Yield s1 ls1 b \<Longrightarrow> trace s1 = trace self @ [list_request hdrs self (offset ls)]"
  "get_links_body w hdrs self ls = Break s1 \<Longrightarrow> trace s1 = trace self @ [list_request hdrs self (offset ls)]"
  "get_links_body w hdrs self ls = Raise e s1 \<Longrightarrow> trace s1 = trace self @ [list_request hdrs self (offset ls)]"
  by (auto simp: body_cases split: outcome.splits option.splits if_splits)

lemma list_request_same_config:
  "same_config a b \<Longrightarrow> list_request hdrs b off = list_request hdrs a off"
  by (simp add: list_request_def list_url_def same_config_fields(1))

lemma loop_trace:
  "get_links_loop w hdrs self ls = (self', pages, err) \<Longrightarrow>
   \<exists>reqs. trace self' = trace self @ reqs \<and> (\<forall>q\<in>set reqs. \<exists>off. q = list_request hdrs self off)"
proof (induction w hdrs self ls arbitrary: self' pages err rule: get_links_loop.induct)
  case (1 w hdrs self ls)
  show ?case
  proof (cases "offset ls \<le> total ls")
    case False
    with "1.prems" show ?thesis by (simp add: loop_done)
  next
    case True
    show ?thesis
    proof (cases "get_links_body w hdrs self ls")
      case (Yield s1 ls1 b)
      obtain s2 ps e where r: "get_links_loop w hdrs s1 ls1 = (s2, ps, e)"
        by (cases "get_links_loop w hdrs s1 ls1") auto
      from "1.IH"[OF True Yield r] obtain reqs where
        reqs: "trace s2 = trace s1 @ reqs" "\<forall>q\<in>set reqs. \<exists>off. q = list_request hdrs s1 off"
        by blast
      from "1.prems" True Yield r have s: "self' = s2" by (simp add: loop_yield)
      have sc: "same_config self s1" by (rule body_frame(1)[OF Yield])
      have "trace self' = trace self @ (list_request hdrs self (offset ls) # reqs)"
        using s reqs(1) body_trace(1)[OF Yield] by simp
      moreover have "\<forall>q\<in>set (list_request hdrs self (offset ls) # reqs). \<exists>off. q = list_request hdrs self off"
        using reqs(2) list_request_same_config[OF sc] by auto
      ultimately show ?thesis by blast
    next
      case (Break s1)
      with "1.prems" True have "self' = s1" by (simp add: loop_break)
      with body_trace(2)[OF Break] show ?thesis
        by (intro exI[of _ "[list_request hdrs self (offset ls)]"]) auto
    next
      case (Raise e1 s1)
      with "1.prems" True have "self' = s1" by (simp add: loop_raise)
      with body_trace(3)[OF Raise] show ?thesis
        by (intro exI[of _ "[list_request hdrs self (offset ls)]"]) auto
    qed
  qed
qed

lemma fetch_trace:
  "\<exists>reqs. trace (fst (fetchIndexItems w self)) = trace self @ reqs
     \<and> (\<forall>q\<in>set reqs. \<exists>off. q = list_request (list_headers self) self off)"
proof -
  obtain s ps e where g: "get_links_loop w (list_headers self) self
       \<lparr> offset = 0, total = 1, response_headers = None \<rparr> = (s, ps, e)"
    by (cases "get_links_loop w (list_headers self) self \<lparr> offset = 0, total = 1, response_headers = None \<rparr>") auto
  from loop_trace[OF g] obtain reqs where
    "trace s = trace self @ reqs" "\<forall>q\<in>set reqs. \<exists>off. q = list_request (list_headers self) self off"
    by blast
  moreover have "trace (fst (fetchIndexItems w self)) = trace s"
    using g by (simp add: fetchIndexItems_def fetch_results_def get_links_def Let_def split: option.splits)
  ultimately show ?thesis by auto
qed

lemma list_headers_frame [simp]:
  "list_headers (self\<lparr> trace := t \<rparr>) = list_headers self"
  "list_headers (self\<lparr> log := l \<rparr>) = list_headers self"
  by (simp_all add: list_headers_def)

lemma send_mutation_trace:
  "\<exists>reqs. trace (fst (send_mutation w self verb req)) = trace self @ req # reqs
     \<and> (\<forall>q\<in>set reqs. \<exists>off. q = list_request (list_headers self) self off)"
proof (cases "http w (trace self) req")
  case Raises
  then show ?thesis by (simp add: send_mutation_def Let_def)
next
  case (Returns r)
  show ?thesis
  proof (cases "ok r")
    case False
    with Returns show ?thesis by (simp add: send_mutation_def Let_def)
  next
    case True
    let ?s2 = "self\<lparr> log := log self @ [Debug (''About to '' @ verb @ '' '' @ req_url req)],
                     trace := trace self @ [req] \<rparr>"
    from fetch_trace[of w ?s2] obtain reqs where
      "trace (fst (fetchIndexItems w ?s2)) = trace ?s2 @ reqs"
      "\<forall>q\<in>set reqs. \<exists>off. q = list_request (list_headers self) self off"
      by auto
    with Returns True show ?thesis
      by (auto simp: send_mutation_def Let_def intro!: exI[of _ reqs])
  qed
qed

lemma list_request_method [simp]:
  "req_method (list_request hdrs s off) = GET" "req_timeout (list_request hdrs s off) = Some 5"
  "req_headers (list_request hdrs s off) = hdrs"
  by (simp_all add: list_request_def)







lemma demo_thread [simp]:
  "thread demo_plugin = \<lparr> stop_event = False, alive = True, wait_seconds = 900 \<rparr>"
  "old_threads demo_plugin = []" "thread_ops demo_plugin = [Thread_start 0]"
  by (simp_all add: demo_plugin_def init_def thread_start_def new_thread_def read_int_def)


lemma step_keeps_length [simp]: "f_cache_length (fetcher_step t e) = f_cache_length t"
  by (cases e) (simp_all add: fetcher_start_def fetcher_wake_def fetcher_stop_def fetcher_cycle_def)

lemma run_keeps_length [simp]: "f_cache_length (fetcher_run t sched) = f_cache_length t"
  unfolding fetcher_run_def by (induction sched arbitrary: t) simp_all












lemma body_yield_log:
  "get_links_body w hdrs self ls = Yield s1 ls1 b \<Longrightarrow> log s1 = log self"
  by (auto simp: body_cases split: outcome.splits option.splits if_splits)

lemma iter_frame:
  "get_links_iter w hdrs n self ls = Some (s, ls') \<Longrightarrow> log s = log self \<and> same_config self s"
proof (induction n arbitrary: self ls)
  case 0
  then show ?case by simp
next
  case (Suc n)
  from Suc.prems obtain s1 ls1 b where
    b: "get_links_body w hdrs self ls = Yield s1 ls1 b"
    and r: "get_links_iter w hdrs n s1 ls1 = Some (s, ls')"
    by (auto split: if_splits step.splits)
  from Suc.IH[OF r] body_yield_log[OF b] body_frame(1)[OF b] show ?case
    by (auto intro: same_config_trans)
qed

lemma fetch_from_get_links:
  "get_links w self = (s, ps, e) \<Longrightarrow>
   snd (fetchIndexItems w self) = e \<and> trace (fst (fetchIndexItems w self)) = trace s
   \<and> log (fst (fetchIndexItems w self)) =
        (case e of Some x \<Rightarrow> log s
         | None \<Rightarrow> log s @ [Info_indexed (length (index_items s) + length (concat ps))])"
  by (simp add: fetchIndexItems_def fetch_results_def Let_def split: option.splits)

lemma raise_at_any_page:
  assumes it: "get_links_iter w (list_headers self) n self
                 \<lparr> offset = 0, total = 1, response_headers = None \<rparr> = Some (s, ls)"
    and g: "offset ls \<le> total ls"
    and r: "http w (trace s) (list_request (list_headers self) s (offset ls)) = Raises"
  shows "snd (fetchIndexItems w self) = Some TransportError
    \<and> trace (fst (fetchIndexItems w self)) = trace s @ [list_request (list_headers self) s (offset ls)]
    \<and> log (fst (fetchIndexItems w self)) = log self"
proof -
  let ?h = "list_headers self"
  let ?q = "list_request ?h s (offset ls)"
  from iter_loop[OF it] obtain ps where
    ps: "get_links_loop w ?h self \<lparr> offset = 0, total = 1, response_headers = None \<rparr> =
      (case get_links_loop w ?h s ls of (s', qs, e) \<Rightarrow> (s', ps @ qs, e))"
    by blast
  have "get_links_loop w ?h s ls = (s\<lparr> trace := trace s @ [?q] \<rparr>, [], Some TransportError)"
    using loop_raise[OF g body_raise[OF r]] .
  with ps have gl: "get_links w self = (s\<lparr> trace := trace s @ [?q] \<rparr>, ps, Some TransportError)"
    by (simp add: get_links_def)
  from fetch_from_get_links[OF gl] iter_frame[OF it] show ?thesis by simp
qed

lemma failure_at_any_page:
  assumes it: "get_links_iter w (list_headers self) n self
                 \<lparr> offset = 0, total = 1, response_headers = None \<rparr> = Some (s, ls)"
    and g: "offset ls \<le> total ls"
    and r: "http w (trace s) (list_request (list_headers self) s (offset ls)) = Returns rf"
    and f: "\<not> ok rf"
  shows "snd (fetchIndexItems w self) = None
    \<and> trace (fst (fetchIndexItems w self)) = trace s @ [list_request (list_headers self) s (offset ls)]
    \<and> (\<exists>m. log (fst (fetchIndexItems w self)) =
          log self @ [Warning (''Got response '' @ str_int (status_code rf) @ '' querying ''
                         @ list_url self (offset ls)), Info_indexed m])"
proof -
  let ?h = "list_headers self"
  let ?q = "list_request ?h s (offset ls)"
  let ?W = "Warning (''Got response '' @ str_int (status_code rf) @ '' querying ''
                         @ list_url s (offset ls))"
  from iter_loop[OF it] obtain ps where
    ps: "get_links_loop w ?h self \<lparr> offset = 0, total = 1, response_headers = None \<rparr> =
      (case get_links_loop w ?h s ls of (s', qs, e) \<Rightarrow> (s', ps @ qs, e))"
    by blast
  have "get_links_loop w ?h s ls = (s\<lparr> trace := trace s @ [?q], log := log s @ [?W] \<rparr>, [], None)"
    using loop_break[OF g body_break[OF r f]] .
  with ps have gl: "get_links w self = (s\<lparr> trace := trace s @ [?q], log := log s @ [?W] \<rparr>, ps, None)"
    by (simp add: get_links_def)
  from iter_frame[OF it] have l: "log s = log self" and sc: "same_config self s" by simp_all
  have u: "list_url s (offset ls) = list_url self (offset ls)"
    using same_config_fields(1)[OF sc] by (simp add: list_url_def)
  from fetch_from_get_links[OF gl] l u show ?thesis by simp
qed

lemma drop_second_iter:
  "get_links_iter world_drop_second (list_headers demo_plugin) (Suc 0) demo_plugin
      \<lparr> offset = 0, total = 1, response_headers = None \<rparr> =
   Some (demo_plugin\<lparr> trace := [list_request (list_headers demo_plugin) demo_plugin 0] \<rparr>,
         \<lparr> offset = 100, total = 250, response_headers = Some [(''Total-Count'', ''250'')] \<rparr>)"
  by (simp add: body_cases capture_def total_count_def world_drop_second_def world_of_def
      page_response_def digits_to_int_def digit_val_def limit_def)

lemma fail_second_iter:
  "get_links_iter world_fail_second (list_headers demo_plugin) (Suc 0) demo_plugin
      \<lparr> offset = 0, total = 1, response_headers = None \<rparr> =
   Some (demo_plugin\<lparr> trace := [list_request (list_headers demo_plugin) demo_plugin 0] \<rparr>,
         \<lparr> offset = 100, total = 250, response_headers = Some [(''Total-Count'', ''250'')] \<rparr>)"
  by (simp add: body_cases capture_def total_count_def world_fail_second_def world_of_def
      page_response_def digits_to_int_def digit_val_def limit_def)









section \<open>Theorems\<close>


text \<open>
  C5. When every page request succeeds and the first response reports a total count of
  250, the pager issues exactly three page requests, for the offsets 0, 100 and 200 with
  limit 100, yields their three pages and stops.
\<close>

theorem three_pages_for_250:
  assumes succ: "\<forall>h q. \<exists>resp. http w h q = Returns resp \<and> ok resp \<and> json resp \<noteq> None"
    and first: "http w (trace self) (list_request (list_headers self) self 0) = Returns r"
    and tot: "total_count w (headers r) = Some 250"
  shows "\<exists>self' p0 p1 p2.
     get_links w self = (self', [p0, p1, p2], None)
     \<and> trace self' = trace self @ map (list_request (list_headers self) self) [0, 100, 200]
     \<and> map req_url (map (list_request (list_headers self) self) [0, 100, 200]) =
         map (\<lambda>off. instance_url self @ ''/api/bookmarks?limit=100&offset='' @ off)
           [''0'', ''100'', ''200'']"
proof -
  let ?h = "list_headers self"
  let ?ls0 = "\<lparr> offset = 0, total = 1, response_headers = None \<rparr>"
  let ?q0 = "list_request ?h self 0"
  let ?q1 = "list_request ?h self 100"
  let ?q2 = "list_request ?h self 200"
  let ?s1 = "self\<lparr> trace := trace self @ [?q0] \<rparr>"
  let ?s2 = "self\<lparr> trace := trace self @ [?q0, ?q1] \<rparr>"
  let ?s3 = "self\<lparr> trace := trace self @ [?q0, ?q1, ?q2] \<rparr>"
  from succ obtain r0 b0 where r0: "http w (trace self) ?q0 = Returns r0" "ok r0" "json r0 = Some b0"
    by (metis option.exhaust)
  from succ obtain r1 b1 where r1: "http w (trace ?s1) ?q1 = Returns r1" "ok r1" "json r1 = Some b1"
    by (metis option.exhaust)
  from succ obtain r2 b2 where r2: "http w (trace ?s2) ?q2 = Returns r2" "ok r2" "json r2 = Some b2"
    by (metis option.exhaust)
  from first tot r0 have t: "total_count w (headers r0) = Some 250" by simp
  then have ne: "headers r0 \<noteq> []" by auto
  let ?ls1 = "\<lparr> offset = 100, total = 250, response_headers = Some (headers r0) \<rparr>"
  let ?ls2 = "\<lparr> offset = 200, total = 250, response_headers = Some (headers r0) \<rparr>"
  let ?ls3 = "\<lparr> offset = 300, total = 250, response_headers = Some (headers r0) \<rparr>"
  have b0: "get_links_body w ?h self ?ls0 = Yield ?s1 ?ls1 b0"
    using body_yield_first[of ?ls0 w self ?h r0 b0 250] r0 t by simp
  have b1: "get_links_body w ?h ?s1 ?ls1 = Yield ?s2 ?ls2 b1"
    using body_yield_later[of ?ls1 "headers r0" w ?s1 ?h r1 b1] r1 ne by simp
  have b2: "get_links_body w ?h ?s2 ?ls2 = Yield ?s3 ?ls3 b2"
    using body_yield_later[of ?ls2 "headers r0" w ?s2 ?h r2 b2] r2 ne by simp
  have l3: "get_links_loop w ?h ?s3 ?ls3 = (?s3, [], None)"
    by (simp add: loop_done)
  have l2: "get_links_loop w ?h ?s2 ?ls2 = (?s3, [b2], None)"
    using loop_yield[OF _ b2] l3 by simp
  have l1: "get_links_loop w ?h ?s1 ?ls1 = (?s3, [b1, b2], None)"
    using loop_yield[OF _ b1] l2 by simp
  have l0: "get_links_loop w ?h self ?ls0 = (?s3, [b0, b1, b2], None)"
    using loop_yield[OF _ b0] l1 by simp
  have urls: "map req_url (map (list_request ?h self) [0, 100, 200]) =
         map (\<lambda>off. instance_url self @ ''/api/bookmarks?limit=100&offset='' @ off)
           [''0'', ''100'', ''200'']"
    by (simp add: list_request_def list_url_def limit_def str_int_vals)
  from l0 urls show ?thesis
    by (simp add: get_links_def)
qed


theorem three_pages_for_250_witness:
  "\<exists>self' p0 p1 p2.
     get_links world_250 demo_plugin = (self', [p0, p1, p2], None)
     \<and> trace self' =
         trace demo_plugin @ map (list_request (list_headers demo_plugin) demo_plugin) [0, 100, 200]
     \<and> map req_url (map (list_request (list_headers demo_plugin) demo_plugin) [0, 100, 200]) =
         map (\<lambda>off. instance_url demo_plugin @ ''/api/bookmarks?limit=100&offset='' @ off)
           [''0'', ''100'', ''200'']"
  using three_pages_for_250 [of world_250 demo_plugin "page_response [(''Total-Count'', ''250'')] []"]
  by (simp add: total_count_def world_250_def world_of_def digits_to_int_def digit_val_def page_response_def)

text \<open>
  C10. When the first page request succeeds and its response carries no
  \<^verbatim>\<open>Total-Count\<close> header, the total stays 1: the pager yields that one page and
  issues no second request, whatever the server would answer to one.
\<close>

theorem no_total_count_one_page:
  assumes "http w (trace self) (list_request (list_headers self) self 0) = Returns r"
    and "ok r" and "json r = Some b"
    and "headers_get (headers r) ''Total-Count'' = None"
  shows "get_links w self =
     (self\<lparr> trace := trace self @ [list_request (list_headers self) self 0] \<rparr>, [b], None)"
proof -
  let ?ls0 = "\<lparr> offset = 0, total = 1, response_headers = None \<rparr>"
  have t: "total_count w (headers r) = Some 1"
    using assms(4) by (simp add: total_count_def)
  have "get_links_body w (list_headers self) self ?ls0 =
     Yield (self\<lparr> trace := trace self @ [list_request (list_headers self) self 0] \<rparr>)
       \<lparr> offset = 100, total = 1, response_headers = Some (headers r) \<rparr> b"
    using body_yield_first[of ?ls0 w self "list_headers self" r b 1] assms(1-3) t by simp
  then show ?thesis
    by (simp add: get_links_def loop_yield loop_done)
qed

theorem no_total_count_one_page_witness:
  "get_links world_no_total demo_plugin =
     (demo_plugin\<lparr> trace := [list_request (list_headers demo_plugin) demo_plugin 0] \<rparr>,
      [[demo_bookmark ''1'']], None)"
  using no_total_count_one_page [of world_no_total demo_plugin
     "page_response [(''Content-Type'', ''application/json'')] [demo_bookmark ''1'']" "[demo_bookmark ''1'']"]
  by (simp add: world_no_total_def world_of_def page_response_def lower_char_def)

text \<open>
  C8. In one run of the pager the total is taken from the first successful response
  only: after any number of pages fetched, the bound that the loop tests is the
  \<^verbatim>\<open>Total-Count\<close> of the response to the first request (1 when it has none), whatever
  the later responses report. The state reached is the state from which the run of
  \<^verbatim>\<open>_get_links\<close> goes on.
\<close>

theorem total_fixed_by_first_page:
  assumes "get_links_iter w (list_headers self) (Suc n) self
             \<lparr> offset = 0, total = 1, response_headers = None \<rparr> = Some (self', ls')"
  shows "(\<exists>r. http w (trace self) (list_request (list_headers self) self 0) = Returns r \<and> ok r
            \<and> total_count w (headers r) = Some (total ls'))
       \<and> (\<exists>ps. length ps = Suc n \<and> get_links w self =
            (case get_links_loop w (list_headers self) self' ls' of (s, qs, e) \<Rightarrow> (s, ps @ qs, e)))"
proof -
  let ?h = "list_headers self"
  let ?ls0 = "\<lparr> offset = 0, total = 1, response_headers = None \<rparr>"
  from assms obtain s1 ls1 b where
    b: "get_links_body w ?h self ?ls0 = Yield s1 ls1 b"
    and r: "get_links_iter w ?h n s1 ls1 = Some (self', ls')"
    by (auto split: if_splits step.splits)
  from body_falsy_locals[OF b] obtain r0 where
    r0: "http w (trace self) (list_request ?h self 0) = Returns r0" "ok r0"
      "total_count w (headers r0) = Some (total ls1)"
      "response_headers ls1 = Some (headers r0)" "offset ls1 = 100"
    by auto
  have "total ls' = total ls1"
  proof (cases "headers r0 = []")
    case True
    with r0(3) have "total ls1 = 1" by simp
    with r0(5) have "total ls1 < offset ls1" by simp
    from iter_beyond[OF r this] show ?thesis by simp
  next
    case False
    from iter_truthy[OF r r0(4) False] show ?thesis .
  qed
  with r0 have first: "\<exists>r. http w (trace self) (list_request ?h self 0) = Returns r \<and> ok r
            \<and> total_count w (headers r) = Some (total ls')"
    by auto
  from iter_loop[OF assms] have "\<exists>ps. length ps = Suc n \<and> get_links w self =
            (case get_links_loop w ?h self' ls' of (s, qs, e) \<Rightarrow> (s, ps @ qs, e))"
    by (simp add: get_links_def)
  with first show ?thesis by blast
qed

lemma shifting_iter:
  "get_links_iter world_shifting (list_headers demo_plugin) (Suc 2) demo_plugin
      \<lparr> offset = 0, total = 1, response_headers = None \<rparr> =
   Some (demo_plugin\<lparr> trace := page_requests demo_plugin 3 \<rparr>,
         \<lparr> offset = 300, total = 250, response_headers = Some [(''Total-Count'', ''250'')] \<rparr>)"
  by (simp add: numeral_2_eq_2 numeral_3_eq_3 body_cases capture_def total_count_def world_shifting_def world_of_def
      page_response_def digits_to_int_def digit_val_def limit_def page_requests_def page_request_def)

theorem total_fixed_by_first_page_witness:
  "(\<exists>r. http world_shifting (trace demo_plugin) (list_request (list_headers demo_plugin) demo_plugin 0) = Returns r
        \<and> ok r \<and> total_count world_shifting (headers r) = Some 250)
   \<and> total_count world_shifting [(''Total-Count'', ''1000'')] = Some 1000"
  using total_fixed_by_first_page [OF shifting_iter]
  by (simp add: total_count_def world_shifting_def world_of_def digits_to_int_def digit_val_def)



text \<open>
  C2, as the code has it. A page request answered with a failure response is logged as a
  warning and ends the pagination, with nothing raised, at whichever page it comes: the
  refresh cycle then completes and returns normally. A refresh cycle in which no request
  raises and every successful response parses returns normally to its caller, whatever
  failure responses it meets. A request that the library cannot complete (a connection
  failure or a timeout) is not caught, at whichever page it comes: the exception leaves
  \<^verbatim>\<open>_get_links\<close> and \<^verbatim>\<open>fetchIndexItems\<close>, and no warning is logged.
\<close>

theorem failure_response_ends_pagination:
  "(offset ls \<le> total ls \<and> http w (trace self) (list_request hdrs self (offset ls)) = Returns r
      \<and> \<not> ok r \<longrightarrow>
      get_links_loop w hdrs self ls =
        (self\<lparr> trace := trace self @ [list_request hdrs self (offset ls)],
               log := log self @ [Warning (''Got response '' @ str_int (status_code r)
                 @ '' querying '' @ list_url self (offset ls))] \<rparr>, [], None))
   \<and> ((\<forall>h q. http w' h q \<noteq> Raises)
      \<and> (\<forall>h q r. http w' h q = Returns r \<and> ok r \<longrightarrow>
             json r \<noteq> None \<and> total_count w' (headers r) \<noteq> None) \<longrightarrow>
      snd (fetchIndexItems w' self') = None)
   \<and> (http w'' (trace self'') (list_request (list_headers self'') self'' 0) = Raises \<longrightarrow>
      fetchIndexItems w'' self'' =
        (self''\<lparr> trace := trace self'' @ [list_request (list_headers self'') self'' 0] \<rparr>,
         Some TransportError))
   \<and> (offset lsa \<le> total lsa \<and> http wa (trace sa) (list_request ha sa (offset lsa)) = Raises \<longrightarrow>
      get_links_loop wa ha sa lsa =
        (sa\<lparr> trace := trace sa @ [list_request ha sa (offset lsa)] \<rparr>, [], Some TransportError))
   \<and> (get_links_iter wb (list_headers sb) n sb
          \<lparr> offset = 0, total = 1, response_headers = None \<rparr> = Some (sn, lsn)
      \<and> offset lsn \<le> total lsn
      \<and> http wb (trace sn) (list_request (list_headers sb) sn (offset lsn)) = Raises \<longrightarrow>
      snd (fetchIndexItems wb sb) = Some TransportError
      \<and> trace (fst (fetchIndexItems wb sb)) =
           trace sn @ [list_request (list_headers sb) sn (offset lsn)]
      \<and> log (fst (fetchIndexItems wb sb)) = log sb)
   \<and> (get_links_iter wc (list_headers sc) m sc
          \<lparr> offset = 0, total = 1, response_headers = None \<rparr> = Some (sm, lsm)
      \<and> offset lsm \<le> total lsm
      \<and> http wc (trace sm) (list_request (list_headers sc) sm (offset lsm)) = Returns rc
      \<and> \<not> ok rc \<longrightarrow>
      snd (fetchIndexItems wc sc) = None
      \<and> trace (fst (fetchIndexItems wc sc)) =
           trace sm @ [list_request (list_headers sc) sm (offset lsm)]
      \<and> (\<exists>k. log (fst (fetchIndexItems wc sc)) =
            log sc @ [Warning (''Got response '' @ str_int (status_code rc) @ '' querying ''
                         @ list_url sc (offset lsm)), Info_indexed k]))"
proof -
  have p1: "offset ls \<le> total ls \<and> http w (trace self) (list_request hdrs self (offset ls)) = Returns r
      \<and> \<not> ok r \<longrightarrow>
      get_links_loop w hdrs self ls =
        (self\<lparr> trace := trace self @ [list_request hdrs self (offset ls)],
               log := log self @ [Warning (''Got response '' @ str_int (status_code r)
                 @ '' querying '' @ list_url self (offset ls))] \<rparr>, [], None)"
    using loop_break[of ls w hdrs self] body_break[of w self hdrs ls r] by simp
  have p2: "(\<forall>h q. http w' h q \<noteq> Raises)
      \<and> (\<forall>h q r. http w' h q = Returns r \<and> ok r \<longrightarrow>
             json r \<noteq> None \<and> total_count w' (headers r) \<noteq> None) \<longrightarrow>
      snd (fetchIndexItems w' self') = None"
  proof
    assume "(\<forall>h q. http w' h q \<noteq> Raises)
      \<and> (\<forall>h q r. http w' h q = Returns r \<and> ok r \<longrightarrow>
             json r \<noteq> None \<and> total_count w' (headers r) \<noteq> None)"
    then have "snd (snd (get_links_loop w' (list_headers self') self'
         \<lparr> offset = 0, total = 1, response_headers = None \<rparr>)) = None"
      by (intro loop_no_raise) blast+
    then show "snd (fetchIndexItems w' self') = None"
      by (simp add: fetch_err get_links_def)
  qed
  have p3: "http w'' (trace self'') (list_request (list_headers self'') self'' 0) = Raises \<longrightarrow>
      fetchIndexItems w'' self'' =
        (self''\<lparr> trace := trace self'' @ [list_request (list_headers self'') self'' 0] \<rparr>,
         Some TransportError)"
    using fetch_transport[of w'' self''] by blast
  have p4: "offset lsa \<le> total lsa \<and> http wa (trace sa) (list_request ha sa (offset lsa)) = Raises \<longrightarrow>
      get_links_loop wa ha sa lsa =
        (sa\<lparr> trace := trace sa @ [list_request ha sa (offset lsa)] \<rparr>, [], Some TransportError)"
    using loop_raise[of lsa wa ha sa] body_raise[of wa sa ha lsa] by simp
  have p5: "get_links_iter wb (list_headers sb) n sb
          \<lparr> offset = 0, total = 1, response_headers = None \<rparr> = Some (sn, lsn)
      \<and> offset lsn \<le> total lsn
      \<and> http wb (trace sn) (list_request (list_headers sb) sn (offset lsn)) = Raises \<longrightarrow>
      snd (fetchIndexItems wb sb) = Some TransportError
      \<and> trace (fst (fetchIndexItems wb sb)) =
           trace sn @ [list_request (list_headers sb) sn (offset lsn)]
      \<and> log (fst (fetchIndexItems wb sb)) = log sb"
    using raise_at_any_page[of wb sb n sn lsn] by blast
  have p6: "get_links_iter wc (list_headers sc) m sc
          \<lparr> offset = 0, total = 1, response_headers = None \<rparr> = Some (sm, lsm)
      \<and> offset lsm \<le> total lsm
      \<and> http wc (trace sm) (list_request (list_headers sc) sm (offset lsm)) = Returns rc
      \<and> \<not> ok rc \<longrightarrow>
      snd (fetchIndexItems wc sc) = None
      \<and> trace (fst (fetchIndexItems wc sc)) =
           trace sm @ [list_request (list_headers sc) sm (offset lsm)]
      \<and> (\<exists>k. log (fst (fetchIndexItems wc sc)) =
            log sc @ [Warning (''Got response '' @ str_int (status_code rc) @ '' querying ''
                         @ list_url sc (offset lsm)), Info_indexed k])"
    using failure_at_any_page[of wc sc m sm lsm rc] by blast
  show ?thesis
    apply (intro conjI)
    apply (rule p1)
    apply (rule p2)
    apply (rule p3)
    apply (rule p4)
    apply (rule p5)
    apply (rule p6)
    done
qed

theorem failure_response_ends_pagination_witness:
  "get_links_loop world_404 (list_headers demo_plugin) demo_plugin
       \<lparr> offset = 0, total = 1, response_headers = None \<rparr> =
     (demo_plugin\<lparr> trace := [list_request (list_headers demo_plugin) demo_plugin 0],
          log := [Warning (''Got response '' @ str_int 404 @ '' querying '' @ list_url demo_plugin 0)] \<rparr>,
      [], None)
   \<and> snd (fetchIndexItems world_404 demo_plugin) = None
   \<and> fetchIndexItems world_down demo_plugin =
       (demo_plugin\<lparr> trace := [list_request (list_headers demo_plugin) demo_plugin 0] \<rparr>,
        Some TransportError)
   \<and> snd (fetchIndexItems world_drop_second demo_plugin) = Some TransportError
   \<and> trace (fst (fetchIndexItems world_drop_second demo_plugin)) =
       [list_request (list_headers demo_plugin) demo_plugin 0,
        list_request (list_headers demo_plugin) demo_plugin 100]
   \<and> log (fst (fetchIndexItems world_drop_second demo_plugin)) = []
   \<and> snd (fetchIndexItems world_fail_second demo_plugin) = None
   \<and> (\<exists>k. log (fst (fetchIndexItems world_fail_second demo_plugin)) =
         [Warning (''Got response '' @ str_int 500 @ '' querying '' @ list_url demo_plugin 100),
          Info_indexed k])"
  using failure_response_ends_pagination [where
      ls = "\<lparr> offset = 0, total = 1, response_headers = None \<rparr>" and w = world_404
      and self = demo_plugin and hdrs = "list_headers demo_plugin" and r = "error_response 404"
      and w' = world_404 and self' = demo_plugin
      and w'' = world_down and self'' = demo_plugin
      and lsa = "\<lparr> offset = 0, total = 1, response_headers = None \<rparr>" and wa = world_down
      and sa = demo_plugin and ha = "list_headers demo_plugin"
      and wb = world_drop_second and sb = demo_plugin and n = "Suc 0"
      and sn = "demo_plugin\<lparr> trace := [list_request (list_headers demo_plugin) demo_plugin 0] \<rparr>"
      and lsn = "\<lparr> offset = 100, total = 250, response_headers = Some [(''Total-Count'', ''250'')] \<rparr>"
      and wc = world_fail_second and sc = demo_plugin and m = "Suc 0"
      and sm = "demo_plugin\<lparr> trace := [list_request (list_headers demo_plugin) demo_plugin 0] \<rparr>"
      and lsm = "\<lparr> offset = 100, total = 250, response_headers = Some [(''Total-Count'', ''250'')] \<rparr>"
      and rc = "error_response 500"]
    drop_second_iter fail_second_iter
  by (simp add: world_404_def world_down_def world_drop_second_def world_fail_second_def
      world_of_def error_response_def)

text \<open>
  The claim as it was made fails where the server cannot be reached, at the first page
  or at a later one: the refresh cycle raises to its caller, and nothing is logged.
\<close>

theorem transport_failure_propagates:
  "snd (fetchIndexItems world_down demo_plugin) = Some TransportError
   \<and> log (fst (fetchIndexItems world_down demo_plugin)) = []
   \<and> snd (fetchIndexItems world_drop_second demo_plugin) = Some TransportError
   \<and> log (fst (fetchIndexItems world_drop_second demo_plugin)) = []"
  using raise_at_any_page[OF drop_second_iter]
  by (simp add: fetch_transport world_down_def world_drop_second_def world_of_def)

text \<open>
  C1. The action of a search record labelled delete is bound to the same operation as
  the archive action, \<^verbatim>\<open>_archive_bookmark\<close> on the record's id, which sends the PATCH
  request with \<open>is_archived\<close> true (followed, at most, by the page requests of a
  refresh). No action of a record calls \<^verbatim>\<open>_delete_bookmark\<close>, and running any of
  them sends no DELETE request; \<^verbatim>\<open>_delete_bookmark\<close>, were it called, would send one.
\<close>

theorem delete_action_archives:
  "[act_callable a. a \<leftarrow> item_actions (gen_item sid icons b), act_id a = ''delete'']
      = [Archive_bookmark (bm_id b)]
   \<and> [act_callable a. a \<leftarrow> item_actions (gen_item sid icons b), act_id a = ''archive'']
      = [Archive_bookmark (bm_id b)]
   \<and> (\<exists>reqs. trace (fst (invoke w self (Archive_bookmark (bm_id b))))
                = trace self @ archive_request self (bm_id b) # reqs
             \<and> (\<forall>q\<in>set reqs. req_method q = GET))
   \<and> req_method (archive_request self (bm_id b)) = PATCH
   \<and> req_json (archive_request self (bm_id b)) = Some [(''is_archived'', True)]
   \<and> (\<forall>a\<in>set (item_actions (gen_item sid icons b)).
         (\<forall>i. act_callable a \<noteq> Delete_bookmark i)
         \<and> (\<exists>reqs. trace (fst (invoke w self (act_callable a))) = trace self @ reqs
                \<and> (\<forall>q\<in>set reqs. req_method q \<noteq> DELETE)))
   \<and> (\<exists>reqs. trace (fst (invoke w self (Delete_bookmark i)))
                = trace self @ delete_request self i # reqs)
   \<and> req_method (delete_request self i) = DELETE"
proof -
  have acts: "map act_callable (item_actions (gen_item sid icons b)) =
      [Open_url (replace_first ''/api'' [] (bm_href b)), Open_url (bm_url b),
       Set_clipboard_text (bm_url b), Archive_bookmark (bm_id b), Archive_bookmark (bm_id b)]"
    by (simp add: gen_item_def Let_def)
  have p1: "[act_callable a. a \<leftarrow> item_actions (gen_item sid icons b), act_id a = ''delete'']
      = [Archive_bookmark (bm_id b)]"
    by (simp add: gen_item_def Let_def)
  have p2: "[act_callable a. a \<leftarrow> item_actions (gen_item sid icons b), act_id a = ''archive'']
      = [Archive_bookmark (bm_id b)]"
    by (simp add: gen_item_def Let_def)
  have arch: "\<And>j. \<exists>reqs. trace (fst (invoke w self (Archive_bookmark j)))
                = trace self @ archive_request self j # reqs
             \<and> (\<forall>q\<in>set reqs. req_method q = GET)"
  proof -
    fix j
    from send_mutation_trace[of w self "''PATCH''" "archive_request self j"]
    obtain reqs where "trace (fst (send_mutation w self ''PATCH'' (archive_request self j)))
        = trace self @ archive_request self j # reqs"
      "\<forall>q\<in>set reqs. \<exists>off. q = list_request (list_headers self) self off" by blast
    then show "\<exists>reqs. trace (fst (invoke w self (Archive_bookmark j)))
                = trace self @ archive_request self j # reqs
             \<and> (\<forall>q\<in>set reqs. req_method q = GET)"
      by (intro exI[of _ reqs]) (auto simp: archive_bookmark_def)
  qed
  have p3: "\<exists>reqs. trace (fst (invoke w self (Archive_bookmark (bm_id b))))
                = trace self @ archive_request self (bm_id b) # reqs
             \<and> (\<forall>q\<in>set reqs. req_method q = GET)"
    by (rule arch)
  have p45: "req_method (archive_request self (bm_id b)) = PATCH"
    "req_json (archive_request self (bm_id b)) = Some [(''is_archived'', True)]"
    by (simp_all add: archive_request_def)
  have nodel: "\<exists>reqs. trace (fst (invoke w self c)) = trace self @ reqs
                \<and> (\<forall>q\<in>set reqs. req_method q \<noteq> DELETE)"
    if "c \<in> {Open_url (replace_first ''/api'' [] (bm_href b)), Open_url (bm_url b),
       Set_clipboard_text (bm_url b), Archive_bookmark (bm_id b)}" for c
  proof -
    from that consider u where "c = Open_url u" | u where "c = Set_clipboard_text u"
      | "c = Archive_bookmark (bm_id b)" by auto
    then show ?thesis
    proof cases
      case 1
      then show ?thesis by simp
    next
      case 2
      then show ?thesis by simp
    next
      case 3
      from p3 obtain reqs where "trace (fst (invoke w self (Archive_bookmark (bm_id b))))
                = trace self @ archive_request self (bm_id b) # reqs"
             "\<forall>q\<in>set reqs. req_method q = GET" by blast
      with 3 p45(1) show ?thesis
        by (intro exI[of _ "archive_request self (bm_id b) # reqs"]) auto
    qed
  qed
  have p6: "\<forall>a\<in>set (item_actions (gen_item sid icons b)).
         (\<forall>i. act_callable a \<noteq> Delete_bookmark i)
         \<and> (\<exists>reqs. trace (fst (invoke w self (act_callable a))) = trace self @ reqs
                \<and> (\<forall>q\<in>set reqs. req_method q \<noteq> DELETE))"
  proof
    fix a assume "a \<in> set (item_actions (gen_item sid icons b))"
    then have "act_callable a \<in> set (map act_callable (item_actions (gen_item sid icons b)))"
      by simp
    then have m: "act_callable a \<in> {Open_url (replace_first ''/api'' [] (bm_href b)), Open_url (bm_url b),
       Set_clipboard_text (bm_url b), Archive_bookmark (bm_id b)}"
      unfolding acts by auto
    then have "\<forall>i. act_callable a \<noteq> Delete_bookmark i" by auto
    with nodel[OF m] show "(\<forall>i. act_callable a \<noteq> Delete_bookmark i)
         \<and> (\<exists>reqs. trace (fst (invoke w self (act_callable a))) = trace self @ reqs
                \<and> (\<forall>q\<in>set reqs. req_method q \<noteq> DELETE))" by blast
  qed
  have p7: "\<exists>reqs. trace (fst (invoke w self (Delete_bookmark i)))
                = trace self @ delete_request self i # reqs"
    using send_mutation_trace[of w self "''DELETE''" "delete_request self i"]
    by (auto simp: delete_bookmark_def)
  have p8: "req_method (delete_request self i) = DELETE"
    by (simp add: delete_request_def)
  from p1 p2 p3 p45 p6 p7 p8 show ?thesis by blast
qed

theorem delete_action_archives_witness:
  "[act_callable a. a \<leftarrow> item_actions (gen_item ''readeck'' [] (demo_bookmark ''1'')),
      act_id a = ''delete''] = [Archive_bookmark ''1'']
   \<and> \<lparr> act_id = ''delete'', act_text = ''Delete bookmark'',
       act_callable = Archive_bookmark ''1'' \<rparr>
       \<in> set (item_actions (gen_item ''readeck'' [] (demo_bookmark ''1'')))
   \<and> map act_callable (item_actions (gen_item ''readeck'' [] (demo_bookmark ''1''))) =
       [Open_url ''http://r/bookmarks/1'', Open_url ''http://x/1'',
        Set_clipboard_text ''http://x/1'', Archive_bookmark ''1'', Archive_bookmark ''1'']
   \<and> trace (fst (invoke world_404 demo_plugin (Archive_bookmark ''1''))) =
       [archive_request demo_plugin ''1'']"
  using delete_action_archives [of "''readeck''" "[]" "demo_bookmark ''1''" world_404 demo_plugin "''1''"]
  by (simp add: gen_item_def Let_def demo_bookmark_def archive_bookmark_def send_mutation_def
      world_404_def world_of_def error_response_def)

text \<open>
  C4. Every request of the three remote operations carries the fixed User-Agent and the
  bearer Authorization header. The page request is issued with a timeout of 5 seconds;
  the requests of \<^verbatim>\<open>_archive_bookmark\<close> and \<^verbatim>\<open>_delete_bookmark\<close> are issued
  without a timeout argument.
\<close>

theorem mutations_sent_without_timeout:
  "(\<exists>reqs. trace (fst (archive_bookmark w self i)) = trace self @ archive_request self i # reqs)
   \<and> req_timeout (archive_request self i) = None
   \<and> (\<exists>reqs. trace (fst (delete_bookmark w self i)) = trace self @ delete_request self i # reqs)
   \<and> req_timeout (delete_request self i) = None
   \<and> req_timeout (list_request (list_headers self) self off) = Some 5
   \<and> req_headers (archive_request self i) =
       [(''User-Agent'', ''org.albert.linkding''), (''Authorization'', ''Bearer '' @ api_key self)]
   \<and> req_headers (delete_request self i) =
       [(''User-Agent'', ''org.albert.linkding''), (''Authorization'', ''Bearer '' @ api_key self)]
   \<and> req_headers (list_request (list_headers self) self off) =
       [(''User-Agent'', ''org.albert.linkding''), (''Authorization'', ''Bearer '' @ api_key self),
        (''accept'', ''application/json'')]"
proof -
  have a: "\<exists>reqs. trace (fst (archive_bookmark w self i)) = trace self @ archive_request self i # reqs"
    using send_mutation_trace[of w self "''PATCH''" "archive_request self i"]
    by (auto simp: archive_bookmark_def)
  have d: "\<exists>reqs. trace (fst (delete_bookmark w self i)) = trace self @ delete_request self i # reqs"
    using send_mutation_trace[of w self "''DELETE''" "delete_request self i"]
    by (auto simp: delete_bookmark_def)
  have rest: "req_timeout (archive_request self i) = None"
    "req_timeout (delete_request self i) = None"
    "req_headers (archive_request self i) =
       [(''User-Agent'', ''org.albert.linkding''), (''Authorization'', ''Bearer '' @ api_key self)]"
    "req_headers (delete_request self i) =
       [(''User-Agent'', ''org.albert.linkding''), (''Authorization'', ''Bearer '' @ api_key self)]"
    "req_headers (list_request (list_headers self) self off) =
       [(''User-Agent'', ''org.albert.linkding''), (''Authorization'', ''Bearer '' @ api_key self),
        (''accept'', ''application/json'')]"
    by (simp_all add: archive_request_def delete_request_def mutate_headers_def list_headers_def
        user_agent_def)
  from a d rest show ?thesis by simp
qed







end
